theory Spec2Isabelle
  imports Complex_Main "HOL-Library.Sublist"
begin

section \<open>Python values used by the client\<close>

text \<open>
  The client (\<^verbatim>\<open>src/client/main.py\<close>, class \<^verbatim>\<open>WSClient\<close>) is dynamically typed: what
  \<^verbatim>\<open>json.loads\<close> returns for a frame is any JSON value, and the handlers receive whatever
  sits under the keys they read. A \<^verbatim>\<open>str\<close> is modelled as a list of characters, each a
  code point below 256; a \<^verbatim>\<open>dict\<close> as the list of its items (keys distinct, as
  \<^verbatim>\<open>json.loads\<close> builds it); a finite \<^verbatim>\<open>float\<close> as the rational number it holds.
\<close>

datatype json =
    JNull
  | JBool bool
  | JInt int
  | JFloat rat
  | JStr string
  | JArr "json list"
  | JObj "(string \<times> json) list"

text \<open>The exceptions that the modelled code can raise, as values.\<close>

datatype exn =
    KeyError
  | TypeError
  | AttributeError
  | ValueError
  | OverflowError
  | TimeoutError
  | HTTPError
  | OtherError

subsection \<open>Strings\<close>

definition py_isspace :: "char \<Rightarrow> bool" where
  \<comment> \<open>\<^verbatim>\<open>str.isspace\<close> on one code point below 256: TAB..CR, FS..US, space, NEL, NBSP\<close>
  "py_isspace c =
     (let n = (of_char c :: nat)
      in (9 \<le> n \<and> n \<le> 13) \<or> (28 \<le> n \<and> n \<le> 32) \<or> n = 133 \<or> n = 160)"

definition trim :: "(char \<Rightarrow> bool) \<Rightarrow> string \<Rightarrow> string" where
  "trim P s = rev (dropWhile P (rev (dropWhile P s)))"

definition strip :: "string \<Rightarrow> string" where
  \<comment> \<open>\<^verbatim>\<open>str.strip()\<close>: whitespace removed at both ends\<close>
  "strip s = trim py_isspace s"

definition lower_char :: "char \<Rightarrow> char" where
  "lower_char c =
     (let n = (of_char c :: nat)
      in if (65 \<le> n \<and> n \<le> 90) \<or> (192 \<le> n \<and> n \<le> 222 \<and> n \<noteq> 215)
         then char_of (n + 32) else c)"

definition lower :: "string \<Rightarrow> string" where
  \<comment> \<open>\<^verbatim>\<open>str.lower()\<close>\<close>
  "lower s = map lower_char s"

fun py_contains :: "string \<Rightarrow> string \<Rightarrow> bool" where
  \<comment> \<open>\<^verbatim>\<open>a in b\<close> for two strings: \<open>a\<close> occurs in \<open>b\<close> as a contiguous run\<close>
  "py_contains a [] = (a = [])"
| "py_contains a (c # cs) = (prefix a (c # cs) \<or> py_contains a cs)"

subsection \<open>Formatting a float with one decimal\<close>

definition round_half_even :: "rat \<Rightarrow> int" where
  "round_half_even q =
     (let f = \<lfloor>q\<rfloor>; d = q - of_int f
      in if d < 1 / 2 then f
         else if 1 / 2 < d then f + 1
         else if even f then f else f + 1)"

definition digit_char :: "nat \<Rightarrow> char" where
  "digit_char d = char_of (48 + d)"

fun decimal :: "nat \<Rightarrow> string" where
  "decimal n = (if n < 10 then [digit_char n] else decimal (n div 10) @ [digit_char (n mod 10)])"

declare decimal.simps [simp del]

definition fmt_1f :: "rat \<Rightarrow> string" where
  \<comment> \<open>\<^verbatim>\<open>"%.1f" % v\<close>: the exact value of the float, correctly rounded to one decimal,
      a tie going to the even digit; the sign is printed for every negative value\<close>
  "fmt_1f v =
     (let n = round_half_even (\<bar>v\<bar> * 10)
      in (if v < 0 then ''-'' else '''')
         @ decimal (nat (n div 10)) @ ''.'' @ decimal (nat (n mod 10)))"

subsection \<open>Floats\<close>

text \<open>
  A finite float is the rational it holds. \<open>binary64 q\<close> is the IEEE 754 double nearest
  to \<open>q\<close> (53 significant bits, ties to the even significand, subnormals included), for
  \<open>q\<close> below the overflow threshold: the value of a float literal, and the result of a
  float operation whose exact result is \<open>q\<close>.
\<close>

fun bit_length :: "nat \<Rightarrow> nat" where
  "bit_length n = (if n = 0 then 0 else Suc (bit_length (n div 2)))"

declare bit_length.simps [simp del]

definition pow2 :: "int \<Rightarrow> rat" where
  "pow2 k = (if 0 \<le> k then 2 ^ nat k else 1 / 2 ^ nat (- k))"

definition floor_log2 :: "rat \<Rightarrow> int" where
  \<comment> \<open>for \<open>0 < q\<close>: the \<open>k\<close> with \<open>pow2 k \<le> q < pow2 (k + 1)\<close>\<close>
  "floor_log2 q =
     (let (a, b) = quotient_of q;
          k = int (bit_length (nat a)) - int (bit_length (nat b))
      in if pow2 k \<le> q then k else k - 1)"

definition binary64 :: "rat \<Rightarrow> rat" where
  "binary64 q =
     (if q = 0 then 0
      else let e = max (floor_log2 \<bar>q\<bar>) (- 1022);
               ulp = pow2 (e - 52)
           in sgn q * of_int (round_half_even (\<bar>q\<bar> / ulp)) * ulp)"

definition float_of_int :: "int \<Rightarrow> exn + rat" where
  \<comment> \<open>the conversion of an \<^verbatim>\<open>int\<close> operand of a float operation\<close>
  "float_of_int v =
     (let r = binary64 (of_int v)
      in if 2 ^ 1024 \<le> \<bar>r\<bar> then Inl OverflowError else Inr r)"

definition int_truediv_float :: "int \<Rightarrow> rat \<Rightarrow> exn + rat" where
  \<comment> \<open>\<^verbatim>\<open>v / d\<close> for an int \<open>v\<close> and a non-zero float \<open>d\<close>\<close>
  "int_truediv_float v d =
     (case float_of_int v of Inl e \<Rightarrow> Inl e | Inr r \<Rightarrow> Inr (binary64 (r / d)))"

subsection \<open>Integers from text\<close>

definition is_digit :: "char \<Rightarrow> bool" where
  "is_digit c = (let n = (of_char c :: nat) in 48 \<le> n \<and> n \<le> 57)"

definition digit_value :: "char \<Rightarrow> int" where
  "digit_value c = int (of_char c) - 48"

fun py_digits :: "bool \<Rightarrow> int \<Rightarrow> string \<Rightarrow> int option" where
  \<comment> \<open>digits, single underscores allowed between two digits; the flag says that the
      character before was a digit\<close>
  "py_digits prev acc [] = (if prev then Some acc else None)"
| "py_digits prev acc (c # cs) =
     (if is_digit c then py_digits True (acc * 10 + digit_value c) cs
      else if c = CHR ''_'' \<and> prev then py_digits False acc cs
      else None)"

definition int_isspace :: "char \<Rightarrow> bool" where
  \<comment> \<open>the whitespace \<^verbatim>\<open>int\<close> skips around a number: of the ASCII characters TAB..CR and
      space only (the separators FS..US are whitespace for \<^verbatim>\<open>str\<close>, not here), and the
      whitespace beyond ASCII\<close>
  "int_isspace c =
     (let n = (of_char c :: nat)
      in (9 \<le> n \<and> n \<le> 13) \<or> n = 32 \<or> n = 133 \<or> n = 160)"

definition py_int :: "string \<Rightarrow> int option" where
  \<comment> \<open>\<^verbatim>\<open>int(s)\<close> for a string: \<open>None\<close> where Python raises \<^verbatim>\<open>ValueError\<close>. Whitespace
      around, one optional sign, then decimal digits (with underscores, as \<^verbatim>\<open>int\<close> reads
      them from Python 3.6 on); no limit on the number of digits.\<close>
  "py_int s =
     (case trim int_isspace s of
        [] \<Rightarrow> None
      | c # cs \<Rightarrow>
          if c = CHR ''-'' then map_option uminus (py_digits False 0 cs)
          else if c = CHR ''+'' then py_digits False 0 cs
          else py_digits False 0 (c # cs))"

subsection \<open>Containers\<close>

fun py_in :: "string \<Rightarrow> json \<Rightarrow> exn + bool" where
  \<comment> \<open>\<^verbatim>\<open>k in msg\<close> for a string \<open>k\<close>: a key test on a dict, a substring test on a string,
      a membership test on a list, \<^verbatim>\<open>TypeError\<close> on anything else\<close>
  "py_in k (JObj kvs) = Inr (map_of kvs k \<noteq> None)"
| "py_in k (JStr s) = Inr (py_contains k s)"
| "py_in k (JArr xs) = Inr (JStr k \<in> set xs)"
| "py_in k _ = Inl TypeError"

fun getitem :: "json \<Rightarrow> string \<Rightarrow> exn + json" where
  \<comment> \<open>\<^verbatim>\<open>msg[k]\<close> for a string \<open>k\<close>\<close>
  "getitem (JObj kvs) k = (case map_of kvs k of None \<Rightarrow> Inl KeyError | Some v \<Rightarrow> Inr v)"
| "getitem _ k = Inl TypeError"

fun truthy :: "json \<Rightarrow> bool" where
  \<comment> \<open>the truth value of \<^verbatim>\<open>if x:\<close>\<close>
  "truthy JNull = False"
| "truthy (JBool b) = b"
| "truthy (JInt n) = (n \<noteq> 0)"
| "truthy (JFloat q) = (q \<noteq> 0)"
| "truthy (JStr s) = (s \<noteq> [])"
| "truthy (JArr xs) = (xs \<noteq> [])"
| "truthy (JObj kvs) = (kvs \<noteq> [])"

fun path_join :: "string \<Rightarrow> string list \<Rightarrow> string" where
  \<comment> \<open>\<^verbatim>\<open>os.path.join(a, *p)\<close> on a POSIX system\<close>
  "path_join path [] = path"
| "path_join path (b # bs) =
     (if b \<noteq> [] \<and> hd b = CHR ''/'' then path_join b bs
      else if path = [] \<or> last path = CHR ''/'' then path_join (path @ b) bs
      else path_join (path @ ''/'' @ b) bs)"

section \<open>The machine the client runs on\<close>

text \<open>
  What the libraries report when the client asks: \<^verbatim>\<open>psutil\<close>, the login manager on
  D-Bus, PulseAudio, the process environment, the clock, the file index. The calls
  are taken to succeed; \<^verbatim>\<open>psutil.sensors_battery()\<close> is \<open>None\<close> on a machine without
  battery and \<^verbatim>\<open>HOME\<close> may be unset. \<open>locate_seconds\<close> is the time after which the
  search submitted to the executor delivers its result.
\<close>

type_synonym sink = string

record system =
  virtual_memory_percent :: rat
  disk_partitions :: "string list"
  disk_usage_percent :: "string \<Rightarrow> rat"
  sensors_battery :: "rat option"
  cpu_percent :: rat
  process_names :: "string list"
  CanPowerOff :: string
  CanSuspend :: string
  CanReboot :: string
  sink_list :: "sink list"
  environ_HOME :: "string option"
  strftime_now :: "string \<Rightarrow> string"
  plocate_locate :: "json \<Rightarrow> string list"
  locate_seconds :: "json \<Rightarrow> rat"
  camera_frame :: bool

section \<open>Queries\<close>

fun disk_loop :: "system \<Rightarrow> string list \<Rightarrow> string \<Rightarrow> string" where
  "disk_loop env [] msg = msg"
| "disk_loop env (p # ps) msg =
     disk_loop env ps (msg @ p @ '' '' @ fmt_1f (disk_usage_percent env p) @ ''% '')"

fun open_loop :: "string \<Rightarrow> string list \<Rightarrow> bool" where
  \<comment> \<open>the loop over \<^verbatim>\<open>psutil.process_iter\<close>: the value of \<^verbatim>\<open>found\<close> when it ends\<close>
  "open_loop search [] = False"
| "open_loop search (name # names) =
     (if py_contains search (lower name) then True else open_loop search names)"

definition processQuery :: "system \<Rightarrow> json \<Rightarrow> json \<Rightarrow> exn + string" where
  "processQuery env value x =
     (if value = JStr ''memory'' then
        Inr (''Memory usage is '' @ fmt_1f (virtual_memory_percent env) @ ''%'')
      else if value = JStr ''disk'' then
        Inr (disk_loop env (disk_partitions env) ''Disk usage is '')
      else if value = JStr ''battery'' then
        (case sensors_battery env of
           None \<Rightarrow> Inl AttributeError
         | Some percent \<Rightarrow> Inr (''Battery is '' @ fmt_1f percent @ ''%''))
      else if value = JStr ''processor'' then
        Inr (''CPU usage is '' @ fmt_1f (cpu_percent env) @ ''%'')
      else if value = JStr ''open'' then
        (case x of
           JStr s \<Rightarrow>
             (let search = lower (strip s)
              in if open_loop search (process_names env)
                 then Inr (''Yes, '' @ search @ '' is running'')
                 else Inr (''No, '' @ search @ '' is not running''))
         | _ \<Rightarrow> Inl AttributeError)
      else Inr ''Unknown query'')"

section \<open>The client\<close>

text \<open>
  The state of a \<^verbatim>\<open>WSClient\<close> and of what it acts on. \<open>ws\<close> is the attribute
  \<^verbatim>\<open>self.ws\<close>; a connection object is named by a number. The other fields record, in
  order, what the client did: the log lines, the responses written to a socket, the
  callbacks handed to the event loop with \<^verbatim>\<open>add_timeout\<close> (with the delay in seconds)
  and \<^verbatim>\<open>add_callback\<close>, the D-Bus methods called, the volumes set, the shell commands
  run, the images written; and how often \<^verbatim>\<open>connect\<close> ran, how many connections
  \<^verbatim>\<open>websocket_connect\<close> returned, and which of them the peer has not closed.
\<close>

type_synonym socket = nat

datatype dbus_call = PowerOff bool | Suspend bool | Reboot bool | SetActive bool

datatype task = Cmd_poweroff | Cmd_sleep | Cmd_reboot | Cmd_image string | Cmd_screenshot string

datatype level = INFO | WARNING | ERROR

datatype log_text = Text string | Value json | Unknown_message json

record client =
  ws :: "socket option"
  logged :: "(level \<times> log_text) list"
  sent :: "(socket \<times> string) list"
  timeouts :: "(rat \<times> task) list"
  callbacks :: "task list"
  dbus_calls :: "dbus_call list"
  pulse_calls :: "(sink \<times> rat) list"
  os_system_calls :: "string list"
  imwrite_calls :: "string list"
  connect_calls :: nat
  sockets_opened :: nat
  open_sockets :: "socket list"

definition logging :: "level \<Rightarrow> log_text \<Rightarrow> client \<Rightarrow> client" where
  "logging l t st = st\<lparr>logged := logged st @ [(l, t)]\<rparr>"

subsection \<open>The capability checks and the actions\<close>

definition can_poweroff :: "system \<Rightarrow> bool" where
  "can_poweroff env = (CanPowerOff env = ''yes'')"

definition can_sleep :: "system \<Rightarrow> bool" where
  "can_sleep env = (CanSuspend env = ''yes'')"

definition can_reboot :: "system \<Rightarrow> bool" where
  "can_reboot env = (CanReboot env = ''yes'')"

definition dbus_method :: "dbus_call \<Rightarrow> client \<Rightarrow> client" where
  "dbus_method c st = st\<lparr>dbus_calls := dbus_calls st @ [c]\<rparr>"

definition cmd_poweroff :: "client \<Rightarrow> client" where
  "cmd_poweroff = dbus_method (PowerOff True)"

definition cmd_sleep :: "client \<Rightarrow> client" where
  "cmd_sleep = dbus_method (Suspend True)"

definition cmd_reboot :: "client \<Rightarrow> client" where
  "cmd_reboot = dbus_method (Reboot True)"

definition cmd_lock :: "client \<Rightarrow> client" where
  "cmd_lock = dbus_method (SetActive True)"

definition cmd_unlock :: "client \<Rightarrow> client" where
  "cmd_unlock = dbus_method (SetActive False)"

definition cmd_screenshot :: "string \<Rightarrow> client \<Rightarrow> client" where
  "cmd_screenshot filename st =
     st\<lparr>os_system_calls := os_system_calls st
        @ [''gnome-screenshot -f '' @ [CHR 0x27] @ filename @ [CHR 0x27]]\<rparr>"

definition cmd_image :: "system \<Rightarrow> string \<Rightarrow> client \<Rightarrow> client" where
  "cmd_image env filename st =
     (if camera_frame env then st\<lparr>imwrite_calls := imwrite_calls st @ [filename]\<rparr> else st)"

fun locate_loop :: "string list \<Rightarrow> string \<Rightarrow> string" where
  "locate_loop [] results = results"
| "locate_loop (p # ps) results = locate_loop ps (results @ p @ '' '')"

definition locate :: "system \<Rightarrow> json \<Rightarrow> string" where
  "locate env pattern = locate_loop (plocate_locate env pattern) []"

subsection \<open>The event loop\<close>

text \<open>
  \<^verbatim>\<open>tornado.gen.with_timeout(timeout, future)\<close> gives the result of a future that
  completes before the timeout and raises \<^verbatim>\<open>tornado.gen.TimeoutError\<close> otherwise; the
  future is given by the time it takes and its result. \<open>ioloop_advance\<close> is the event
  loop running for \<open>dt\<close> seconds: the callbacks added, then the timeouts that are due,
  by deadline.
\<close>

definition with_timeout :: "rat \<Rightarrow> rat \<times> 'a \<Rightarrow> exn + 'a" where
  "with_timeout timeout future =
     (if fst future < timeout then Inr (snd future) else Inl TimeoutError)"

fun run_task :: "system \<Rightarrow> task \<Rightarrow> client \<Rightarrow> client" where
  "run_task env Cmd_poweroff st = cmd_poweroff st"
| "run_task env Cmd_sleep st = cmd_sleep st"
| "run_task env Cmd_reboot st = cmd_reboot st"
| "run_task env (Cmd_image filename) st = cmd_image env filename st"
| "run_task env (Cmd_screenshot filename) st = cmd_screenshot filename st"

definition ioloop_advance :: "system \<Rightarrow> rat \<Rightarrow> client \<Rightarrow> client" where
  "ioloop_advance env dt st =
     (let due = filter (\<lambda>(d, t). d \<le> dt) (timeouts st);
          later = filter (\<lambda>(d, t). \<not> d \<le> dt) (timeouts st);
          todo = callbacks st @ map snd (sort_key fst due)
      in foldl (\<lambda>s t. run_task env t s)
           (st\<lparr>timeouts := map (\<lambda>(d, t). (d - dt, t)) later, callbacks := []\<rparr>) todo)"

subsection \<open>Commands\<close>

fun volume_loop :: "int \<Rightarrow> sink list \<Rightarrow> client \<Rightarrow> exn option \<times> client" where
  \<comment> \<open>\<^verbatim>\<open>for sink in pulse.sink_list(): pulse.volume_set_all_chans(sink, volume/100.0)\<close>\<close>
  "volume_loop volume [] st = (None, st)"
| "volume_loop volume (sink # sinks) st =
     (case int_truediv_float volume 100 of
        Inl e \<Rightarrow> (Some e, st)
      | Inr fraction \<Rightarrow>
          volume_loop volume sinks (st\<lparr>pulse_calls := pulse_calls st @ [(sink, fraction)]\<rparr>))"

definition picture_filename :: "system \<Rightarrow> string \<Rightarrow> exn + string" where
  \<comment> \<open>\<^verbatim>\<open>os.path.join(os.environ["HOME"], "Dropbox", datetime.datetime.now().strftime(fmt))\<close>\<close>
  "picture_filename env fmt =
     (case environ_HOME env of
        None \<Rightarrow> Inl KeyError
      | Some home \<Rightarrow> Inr (path_join home [''Dropbox'', strftime_now env fmt]))"

definition processCommand ::
  "system \<Rightarrow> json \<Rightarrow> json \<Rightarrow> json \<Rightarrow> client \<Rightarrow> (exn + string) \<times> client" where
  "processCommand env command x url st =
     (if command = JStr ''power off'' then
        (if can_poweroff env
         then (Inr ''Powering off'', st\<lparr>timeouts := timeouts st @ [(2, Cmd_poweroff)]\<rparr>)
         else (Inr ''Cannot power off'', st))
      else if command = JStr ''sleep'' then
        (if can_sleep env
         then (Inr ''Sleeping'', st\<lparr>timeouts := timeouts st @ [(2, Cmd_sleep)]\<rparr>)
         else (Inr ''Cannot sleep'', st))
      else if command = JStr ''reboot'' then
        (if can_reboot env
         then (Inr ''Rebooting'', st\<lparr>timeouts := timeouts st @ [(2, Cmd_reboot)]\<rparr>)
         else (Inr ''Cannot reboot'', st))
      else if command = JStr ''lock'' then (Inr ''Locking'', cmd_lock st)
      else if command = JStr ''unlock'' then (Inr ''Unlocking'', cmd_unlock st)
      else if command = JStr ''open'' then (Inr ''Not implemented yet'', st)
      else if command = JStr ''close'' then (Inr ''Not implemented yet'', st)
      else if command = JStr ''kill'' then (Inr ''Not implemented yet'', st)
      else if command = JStr ''locate'' then
        (if truthy x then
           (case with_timeout (7 / 2) (locate_seconds env x, locate env x) of
              Inl e \<Rightarrow> (if e = TimeoutError then (Inr ''Timed out'', st) else (Inl e, st))
            | Inr result \<Rightarrow> (Inr (''Results: '' @ result), st))
         else (Inr ''Nothing to search for'', st))
      else if command = JStr ''fetch'' then (Inr ''Not implemented yet'', st)
      else if command = JStr ''set volume'' then
        (case x of
           JStr s \<Rightarrow>
             (case py_int (filter (\<lambda>c. c \<noteq> CHR ''%'') s) of
                None \<Rightarrow> (Inr ''Invalid percentage'', st)
              | Some volume \<Rightarrow>
                  (case volume_loop volume (sink_list env) st of
                     (Some e, st') \<Rightarrow> (Inl e, st')
                   | (None, st') \<Rightarrow> (Inr ''Volume set'', st')))
         | _ \<Rightarrow> (Inl AttributeError, st))
      else if command = JStr ''stop'' then (Inr ''Not implemented yet'', st)
      else if command = JStr ''take a picture'' then
        (case picture_filename env ''LinuxControl-Picture-%Y-%m-%d-%Hh-%Mm-%Ss.png'' of
           Inl e \<Rightarrow> (Inl e, st)
         | Inr filename \<Rightarrow>
             (Inr (''Taking picture '' @ filename),
              st\<lparr>callbacks := callbacks st @ [Cmd_image filename]\<rparr>))
      else if command = JStr ''screenshot'' then
        (case picture_filename env ''LinuxControl-Screenshot-%Y-%m-%d-%Hh-%Mm-%Ss.png'' of
           Inl e \<Rightarrow> (Inl e, st)
         | Inr filename \<Rightarrow>
             (Inr (''Taking screenshot '' @ filename),
              st\<lparr>callbacks := callbacks st @ [Cmd_screenshot filename]\<rparr>))
      else if command = JStr ''download'' then (Inr ''Not implemented yet'', st)
      else if command = JStr ''start recording'' then (Inr ''Not implemented yet'', st)
      else if command = JStr ''stop recording'' then (Inr ''Not implemented yet'', st)
      else (Inr ''Unknown command'', st))"

subsection \<open>The read loop\<close>

text \<open>
  What \<^verbatim>\<open>self.ws.read_message()\<close> delivers: \<open>Eof\<close> is \<^verbatim>\<open>None\<close>, the connection has been
  closed; a text frame is given by what \<^verbatim>\<open>json.loads\<close> makes of it, the decoded value
  or, for a text that is not JSON, \<^verbatim>\<open>ValueError\<close> (\<open>Malformed\<close>).
\<close>

datatype message = Eof | Malformed | Json json

text \<open>
  One pass through the body of the loop ends in the next read, in \<^verbatim>\<open>break\<close>, or in an
  exception. The only handler around the loop is for \<^verbatim>\<open>KeyboardInterrupt\<close>, so every
  exception modelled here leaves \<^verbatim>\<open>run\<close>.
\<close>

datatype step = Continue client | Break client | Raise exn client

datatype loop_end = Waiting | Closed_break | Error_break | Raised exn

definition write_message :: "string \<Rightarrow> client \<Rightarrow> exn + client" where
  \<comment> \<open>\<^verbatim>\<open>self.ws.write_message(json.dumps({"response": result}))\<close>; the write itself is
      taken to succeed\<close>
  "write_message result st =
     (case ws st of
        None \<Rightarrow> Inl AttributeError
      | Some s \<Rightarrow> Inr (st\<lparr>sent := sent st @ [(s, result)]\<rparr>))"

definition query_fields :: "json \<Rightarrow> exn + json \<times> json" where
  \<comment> \<open>\<^verbatim>\<open>msg["query"]["value"]\<close>, then \<^verbatim>\<open>msg["query"]["x"]\<close>\<close>
  "query_fields msg =
     (case getitem msg ''query'' of
        Inl e \<Rightarrow> Inl e
      | Inr q \<Rightarrow>
          (case getitem q ''value'' of
             Inl e \<Rightarrow> Inl e
           | Inr value \<Rightarrow>
               (case getitem q ''x'' of Inl e \<Rightarrow> Inl e | Inr x \<Rightarrow> Inr (value, x))))"

definition command_fields :: "json \<Rightarrow> exn + json \<times> json \<times> json" where
  \<comment> \<open>\<^verbatim>\<open>msg["command"]["command"]\<close>, \<^verbatim>\<open>msg["command"]["x"]\<close>, \<^verbatim>\<open>msg["command"]["url"]\<close>\<close>
  "command_fields msg =
     (case getitem msg ''command'' of
        Inl e \<Rightarrow> Inl e
      | Inr c \<Rightarrow>
          (case getitem c ''command'' of
             Inl e \<Rightarrow> Inl e
           | Inr command \<Rightarrow>
               (case getitem c ''x'' of
                  Inl e \<Rightarrow> Inl e
                | Inr x \<Rightarrow>
                    (case getitem c ''url'' of
                       Inl e \<Rightarrow> Inl e
                     | Inr url \<Rightarrow> Inr (command, x, url)))))"

definition respond :: "(exn + string) \<times> client \<Rightarrow> step" where
  "respond r =
     (case r of
        (Inl e, st) \<Rightarrow> Raise e st
      | (Inr result, st) \<Rightarrow>
          (case write_message result st of Inl e \<Rightarrow> Raise e st | Inr st' \<Rightarrow> Continue st'))"

definition run_body :: "system \<Rightarrow> json \<Rightarrow> client \<Rightarrow> step" where
  "run_body env msg st =
     (case py_in ''error'' msg of
        Inl e \<Rightarrow> Raise e st
      | Inr is_error \<Rightarrow>
          if is_error then
            (case getitem msg ''error'' of
               Inl e \<Rightarrow> Raise e st
             | Inr text \<Rightarrow> Break (logging ERROR (Value text) st))
          else
            (case py_in ''query'' msg of
               Inl e \<Rightarrow> Raise e st
             | Inr is_query \<Rightarrow>
                 if is_query then
                   (case query_fields msg of
                      Inl e \<Rightarrow> Raise e st
                    | Inr (value, x) \<Rightarrow> respond (processQuery env value x, st))
                 else
                   (case py_in ''command'' msg of
                      Inl e \<Rightarrow> Raise e st
                    | Inr is_command \<Rightarrow>
                        if is_command then
                          (case command_fields msg of
                             Inl e \<Rightarrow> Raise e st
                           | Inr (command, x, url) \<Rightarrow>
                               respond (processCommand env command x url st))
                        else Continue (logging WARNING (Unknown_message msg) st))))"

fun run :: "system \<Rightarrow> message list \<Rightarrow> client \<Rightarrow> loop_end \<times> client" where
  \<comment> \<open>the loop over the messages the connection delivers; with none left the loop is
      suspended in its read\<close>
  "run env [] st = (case ws st of None \<Rightarrow> (Raised AttributeError, st) | Some s \<Rightarrow> (Waiting, st))"
| "run env (m # ms) st =
     (case ws st of
        None \<Rightarrow> (Raised AttributeError, st)
      | Some s \<Rightarrow>
          (case m of
             Eof \<Rightarrow>
               (Closed_break,
                (logging INFO (Text ''Connection closed'') st)
                  \<lparr>ws := None, open_sockets := filter (\<lambda>t. t \<noteq> s) (open_sockets st)\<rparr>)
           | Malformed \<Rightarrow> (Raised ValueError, st)
           | Json msg \<Rightarrow>
               (case run_body env msg st of
                  Continue st' \<Rightarrow> run env ms st'
                | Break st' \<Rightarrow> (Error_break, st')
                | Raise e st' \<Rightarrow> (Raised e, st'))))"

subsection \<open>Connecting and the keep-alive\<close>

text \<open>
  A connection attempt meets a handshake that fails with an exception or gives a new
  connection, which then delivers its messages. \<^verbatim>\<open>connect\<close> catches
  \<^verbatim>\<open>tornado.httpclient.HTTPError\<close> only. The attempt is over before the next tick of the
  periodic callback.
\<close>

datatype handshake = Refused exn | Accepted "message list"

definition connect :: "system \<Rightarrow> handshake \<Rightarrow> client \<Rightarrow> client" where
  "connect env hs st0 =
     (let st = st0\<lparr>connect_calls := Suc (connect_calls st0)\<rparr>
      in case hs of
           Refused e \<Rightarrow>
             if e = HTTPError
             then logging ERROR (Text ''HTTP error - could not connect to websocket'') st
             else st
         | Accepted ms \<Rightarrow>
             (let s = sockets_opened st;
                  st' = logging INFO (Text ''Connection opened'')
                          (st\<lparr>ws := Some s, sockets_opened := Suc s,
                              open_sockets := open_sockets st @ [s]\<rparr>)
              in snd (run env ms st')))"

definition keep_alive :: "system \<Rightarrow> handshake \<Rightarrow> client \<Rightarrow> client" where
  "keep_alive env hs st =
     (if ws st = None then connect env hs (logging INFO (Text ''Reconnecting'') st) else st)"

definition init :: client where
  "init = \<lparr>ws = None, logged = [], sent = [], timeouts = [], callbacks = [],
            dbus_calls = [], pulse_calls = [], os_system_calls = [], imwrite_calls = [],
            connect_calls = 0, sockets_opened = 0, open_sockets = []\<rparr>"

definition WSClient :: "system \<Rightarrow> handshake \<Rightarrow> handshake list \<Rightarrow> client" where
  \<comment> \<open>\<^verbatim>\<open>__init__\<close>: the first \<^verbatim>\<open>connect\<close>, then one \<^verbatim>\<open>keep_alive\<close> per tick\<close>
  "WSClient env hs ticks = foldl (\<lambda>st h. keep_alive env h st) (connect env hs init) ticks"

section \<open>The names and shapes the specification lists\<close>

definition recognized_queries :: "string list" where
  "recognized_queries = [''memory'', ''disk'', ''battery'', ''processor'', ''open'']"

definition recognized_commands :: "string list" where
  "recognized_commands =
     [''power off'', ''sleep'', ''reboot'', ''lock'', ''unlock'', ''open'', ''close'', ''kill'',
      ''locate'', ''fetch'', ''set volume'', ''stop'', ''take a picture'', ''screenshot'',
      ''download'', ''start recording'', ''stop recording'']"

definition strip_trailing_percent :: "string \<Rightarrow> string" where
  \<comment> \<open>the specification's reading of the volume argument: one \<open>%\<close> at the end is taken off\<close>
  "strip_trailing_percent s = (if s \<noteq> [] \<and> last s = CHR ''%'' then butlast s else s)"

definition remove_percent :: "string \<Rightarrow> string" where
  \<comment> \<open>\<^verbatim>\<open>x.replace("%", "")\<close>, as \<open>processCommand\<close> has it\<close>
  "remove_percent s = filter (\<lambda>c. c \<noteq> CHR ''%'') s"

definition int_char :: "char \<Rightarrow> bool" where
  \<comment> \<open>the characters that can occur in a text \<open>py_int\<close> accepts\<close>
  "int_char c = (is_digit c \<or> int_isspace c \<or> c = CHR ''+'' \<or> c = CHR ''-'' \<or> c = CHR ''_'')"

definition one_socket :: "client \<Rightarrow> bool" where
  \<comment> \<open>the connections not yet closed are \<open>ws\<close> and nothing else\<close>
  "one_socket st = (open_sockets st = (case ws st of None \<Rightarrow> [] | Some s \<Rightarrow> [s]))"

subsection \<open>A machine and a connected client to evaluate on\<close>

definition example_system :: system where
  "example_system =
     \<lparr>virtual_memory_percent = 41, disk_partitions = [''/''], disk_usage_percent = (\<lambda>_. 63),
      sensors_battery = Some (binary64 (8735 / 100)), cpu_percent = 7,
      process_names = [''systemd'', ''Firefox''],
      CanPowerOff = ''yes'', CanSuspend = ''yes'', CanReboot = ''yes'',
      sink_list = [''speakers'', ''headset''], environ_HOME = Some ''/home/user'',
      strftime_now = (\<lambda>fmt. fmt), plocate_locate = (\<lambda>_. [''/etc/hosts'']),
      locate_seconds = (\<lambda>_. 1), camera_frame = True\<rparr>"

definition connected_client :: client where
  "connected_client = connect example_system (Accepted []) init"

definition slow_system :: system where
  "slow_system = example_system\<lparr>locate_seconds := (\<lambda>_. 60)\<rparr>"

definition refusing_system :: system where
  "refusing_system =
     example_system\<lparr>CanPowerOff := ''no'', CanSuspend := ''challenge'', CanReboot := ''na''\<rparr>"

subsection \<open>Auxiliary notions for the proofs\<close>

fun task_call :: "task \<Rightarrow> dbus_call list" where
  \<comment> \<open>the D-Bus method a scheduled callback calls\<close>
  "task_call Cmd_poweroff = [PowerOff True]"
| "task_call Cmd_sleep = [Suspend True]"
| "task_call Cmd_reboot = [Reboot True]"
| "task_call _ = []"

definition same_connection :: "client \<Rightarrow> client \<Rightarrow> bool" where
  \<comment> \<open>nothing about the connection differs between the two states\<close>
  "same_connection st st' =
     (ws st' = ws st \<and> open_sockets st' = open_sockets st
      \<and> connect_calls st' = connect_calls st \<and> sockets_opened st' = sockets_opened st)"

fun step_client :: "step \<Rightarrow> client" where
  \<comment> \<open>the state in which a pass through the loop body ends\<close>
  "step_client (Continue st) = st"
| "step_client (Break st) = st"
| "step_client (Raise e st) = st"

section \<open>Queries: proofs\<close>

lemma py_contains_sublist: "py_contains a b \<longleftrightarrow> sublist a b"
  by (induction b) (auto simp: sublist_Cons_right)

lemma open_loop_iff:
  "open_loop search names \<longleftrightarrow> (\<exists>name \<in> set names. sublist search (lower name))"
  by (induction names) (auto simp: py_contains_sublist)

text \<open>
  Claim C10. For the \<^verbatim>\<open>open\<close> query the argument is stripped of surrounding whitespace
  and lowercased; a process matches when the term so normalized occurs, as a contiguous
  run, in the lowercased process name; the response echoes the normalized term. With
  an empty argument every process matches, so the answer is \<^verbatim>\<open>Yes,  is running\<close> as soon
  as there is one process.
\<close>

theorem open_query:
  "processQuery env (JStr ''open'') (JStr x) =
     (if \<exists>name \<in> set (process_names env). sublist (lower (strip x)) (lower name)
      then Inr (''Yes, '' @ lower (strip x) @ '' is running'')
      else Inr (''No, '' @ lower (strip x) @ '' is not running''))
   \<and> (process_names env \<noteq> [] \<longrightarrow>
        processQuery env (JStr ''open'') (JStr '''') = Inr ''Yes,  is running'')"
proof -
  have main: "\<And>y. processQuery env (JStr ''open'') (JStr y) =
     (if \<exists>name \<in> set (process_names env). sublist (lower (strip y)) (lower name)
      then Inr (''Yes, '' @ lower (strip y) @ '' is running'')
      else Inr (''No, '' @ lower (strip y) @ '' is not running''))"
    by (simp add: processQuery_def Let_def open_loop_iff)
  have empty: "lower (strip '''') = ''''"
    by (simp add: lower_def strip_def trim_def)
  have "process_names env \<noteq> [] \<Longrightarrow>
      \<exists>name \<in> set (process_names env). sublist '''' (lower name)"
    by (cases "process_names env") auto
  then have "process_names env \<noteq> [] \<longrightarrow>
      processQuery env (JStr ''open'') (JStr '''') = Inr ''Yes,  is running''"
    using main [of "''''"] by (simp add: empty)
  with main [of x] show ?thesis by blast
qed

theorem open_query_witness:
  "(\<exists>name \<in> set (process_names example_system).
       sublist (lower (strip '' FireFox '')) (lower name))
   \<and> processQuery example_system (JStr ''open'') (JStr '' FireFox '')
       = Inr ''Yes, firefox is running''
   \<and> \<not> (\<exists>name \<in> set (process_names example_system).
       sublist (lower (strip ''emacs'')) (lower name))
   \<and> processQuery example_system (JStr ''open'') (JStr ''emacs'')
       = Inr ''No, emacs is not running''
   \<and> process_names example_system \<noteq> []
   \<and> processQuery example_system (JStr ''open'') (JStr '''') = Inr ''Yes,  is running''"
proof -
  have t: "lower (strip '' FireFox '') = ''firefox''" "lower (strip ''emacs'') = ''emacs''"
    by code_simp+
  have y: "open_loop ''firefox'' (process_names example_system)"
    by code_simp
  have n: "\<not> open_loop ''emacs'' (process_names example_system)"
    by code_simp
  have p: "process_names example_system \<noteq> []"
    by (simp add: example_system_def)
  from y n p open_query [of example_system "'' FireFox ''"]
    open_query [of example_system "''emacs''"]
  show ?thesis
    unfolding t open_loop_iff by simp
qed

text \<open>
  The float that a backend reporting 87.35 hands over is the double nearest to 87.35,
  which lies below it; rounding that value to one decimal gives 87.3. The decimal
  number 87.35 itself, half way between 87.3 and 87.4, would give 87.4.
\<close>

lemma binary64_87_35: "binary64 (8735 / 100) = 6146709803918950 / 2 ^ 46"
  by code_simp

lemma fmt_battery: "fmt_1f (binary64 (8735 / 100)) = ''87.3''"
  by code_simp

lemma fmt_exact_87_35: "fmt_1f (8735 / 100) = ''87.4''"
  by code_simp

text \<open>
  Claim C5. For the \<^verbatim>\<open>battery\<close> query, with \<^verbatim>\<open>psutil\<close> reporting the float 87.35, the
  response is exactly \<^verbatim>\<open>Battery is 87.3%\<close>: the value the float holds, rounded to the
  nearest number with one decimal.
\<close>

theorem battery_response:
  "sensors_battery env = Some (binary64 (8735 / 100)) \<Longrightarrow>
     processQuery env (JStr ''battery'') x = Inr ''Battery is 87.3%''"
  using fmt_battery by (simp add: processQuery_def)

theorem battery_response_witness:
  "sensors_battery example_system = Some (binary64 (8735 / 100))
   \<and> processQuery example_system (JStr ''battery'') (JStr '''') = Inr ''Battery is 87.3%''"
proof -
  have h: "sensors_battery example_system = Some (binary64 (8735 / 100))"
    by (simp add: example_system_def)
  with battery_response [OF h, of "JStr ''''"] show ?thesis by simp
qed

section \<open>Commands: proofs\<close>

text \<open>
  Claim C9. A command name outside the recognized set is answered with exactly
  \<^verbatim>\<open>Unknown command\<close>, and nothing else happens; a query name outside the recognized
  set is answered with exactly \<^verbatim>\<open>Unknown query\<close>.
\<close>

theorem unknown_names:
  "(command \<notin> JStr ` set recognized_commands \<longrightarrow>
      processCommand env command x url st = (Inr ''Unknown command'', st))
   \<and> (value \<notin> JStr ` set recognized_queries \<longrightarrow>
      processQuery env value y = Inr ''Unknown query'')"
  by (simp add: processCommand_def processQuery_def recognized_commands_def
      recognized_queries_def)

theorem unknown_names_witness:
  "JStr ''dance'' \<notin> JStr ` set recognized_commands
   \<and> processCommand example_system (JStr ''dance'') (JStr '''') (JStr '''') connected_client
       = (Inr ''Unknown command'', connected_client)
   \<and> JStr ''weather'' \<notin> JStr ` set recognized_queries
   \<and> processQuery example_system (JStr ''weather'') (JStr '''') = Inr ''Unknown query''"
  using unknown_names [of "JStr ''dance''" example_system "JStr ''''" "JStr ''''"
      connected_client "JStr ''weather''" "JStr ''''"]
  by (simp add: recognized_commands_def recognized_queries_def)

subsection \<open>Power off, sleep, reboot\<close>

lemma run_task_dbus_calls: "dbus_calls (run_task env t st) = dbus_calls st @ task_call t"
  by (cases t) (simp_all add: cmd_poweroff_def cmd_sleep_def cmd_reboot_def dbus_method_def
      cmd_image_def cmd_screenshot_def)

lemma foldl_run_task_dbus_calls:
  "dbus_calls (foldl (\<lambda>s t. run_task env t s) st todo)
     = dbus_calls st @ concat (map task_call todo)"
  by (induction todo arbitrary: st) (simp_all add: run_task_dbus_calls)

lemma ioloop_advance_due:
  assumes "(d, t) \<in> set (timeouts st)" "d \<le> dt"
  shows "set (task_call t) \<subseteq> set (dbus_calls (ioloop_advance env dt st))"
proof -
  have "t \<in> set (map snd (sort_key fst (filter (\<lambda>(d, t). d \<le> dt) (timeouts st))))"
    using assms by force
  then show ?thesis
    by (auto simp: ioloop_advance_def Let_def foldl_run_task_dbus_calls)
qed

text \<open>
  Claim C7. For \<^verbatim>\<open>power off\<close>, \<^verbatim>\<open>sleep\<close> and \<^verbatim>\<open>reboot\<close>: when the capability check
  reports false the response is exactly \<^verbatim>\<open>Cannot power off\<close>, \<^verbatim>\<open>Cannot sleep\<close>,
  \<^verbatim>\<open>Cannot reboot\<close> and the state is as before, no action called and none scheduled;
  when it reports true the confirmation is returned and the action is handed to the
  event loop with a delay of two seconds, which calls the D-Bus method once that time
  has passed.
\<close>

theorem preflight_gated:
  "(\<not> can_poweroff env \<longrightarrow>
      processCommand env (JStr ''power off'') x url st = (Inr ''Cannot power off'', st))
   \<and> (\<not> can_sleep env \<longrightarrow>
      processCommand env (JStr ''sleep'') x url st = (Inr ''Cannot sleep'', st))
   \<and> (\<not> can_reboot env \<longrightarrow>
      processCommand env (JStr ''reboot'') x url st = (Inr ''Cannot reboot'', st))
   \<and> (can_poweroff env \<longrightarrow>
      processCommand env (JStr ''power off'') x url st
        = (Inr ''Powering off'', st\<lparr>timeouts := timeouts st @ [(2, Cmd_poweroff)]\<rparr>)
      \<and> PowerOff True \<in> set (dbus_calls (ioloop_advance env 2
            (snd (processCommand env (JStr ''power off'') x url st)))))
   \<and> (can_sleep env \<longrightarrow>
      processCommand env (JStr ''sleep'') x url st
        = (Inr ''Sleeping'', st\<lparr>timeouts := timeouts st @ [(2, Cmd_sleep)]\<rparr>)
      \<and> Suspend True \<in> set (dbus_calls (ioloop_advance env 2
            (snd (processCommand env (JStr ''sleep'') x url st)))))
   \<and> (can_reboot env \<longrightarrow>
      processCommand env (JStr ''reboot'') x url st
        = (Inr ''Rebooting'', st\<lparr>timeouts := timeouts st @ [(2, Cmd_reboot)]\<rparr>)
      \<and> Reboot True \<in> set (dbus_calls (ioloop_advance env 2
            (snd (processCommand env (JStr ''reboot'') x url st)))))"
proof -
  have off: "PowerOff True \<in> set (dbus_calls (ioloop_advance env 2
      (st\<lparr>timeouts := timeouts st @ [(2, Cmd_poweroff)]\<rparr>)))"
    using ioloop_advance_due
      [of 2 Cmd_poweroff "st\<lparr>timeouts := timeouts st @ [(2, Cmd_poweroff)]\<rparr>" 2 env]
    by simp
  have sleep: "Suspend True \<in> set (dbus_calls (ioloop_advance env 2
      (st\<lparr>timeouts := timeouts st @ [(2, Cmd_sleep)]\<rparr>)))"
    using ioloop_advance_due
      [of 2 Cmd_sleep "st\<lparr>timeouts := timeouts st @ [(2, Cmd_sleep)]\<rparr>" 2 env]
    by simp
  have reboot: "Reboot True \<in> set (dbus_calls (ioloop_advance env 2
      (st\<lparr>timeouts := timeouts st @ [(2, Cmd_reboot)]\<rparr>)))"
    using ioloop_advance_due
      [of 2 Cmd_reboot "st\<lparr>timeouts := timeouts st @ [(2, Cmd_reboot)]\<rparr>" 2 env]
    by simp
  show ?thesis
    using off sleep reboot by (simp add: processCommand_def)
qed

theorem preflight_gated_witness:
  "\<not> can_poweroff refusing_system \<and> \<not> can_sleep refusing_system \<and> \<not> can_reboot refusing_system
   \<and> processCommand refusing_system (JStr ''power off'') (JStr '''') JNull connected_client
       = (Inr ''Cannot power off'', connected_client)
   \<and> processCommand refusing_system (JStr ''sleep'') (JStr '''') JNull connected_client
       = (Inr ''Cannot sleep'', connected_client)
   \<and> processCommand refusing_system (JStr ''reboot'') (JStr '''') JNull connected_client
       = (Inr ''Cannot reboot'', connected_client)
   \<and> can_poweroff example_system \<and> can_sleep example_system \<and> can_reboot example_system
   \<and> fst (processCommand example_system (JStr ''power off'') (JStr '''') JNull connected_client)
       = Inr ''Powering off''
   \<and> PowerOff True \<in> set (dbus_calls (ioloop_advance example_system 2
        (snd (processCommand example_system (JStr ''power off'') (JStr '''') JNull
           connected_client))))
   \<and> fst (processCommand example_system (JStr ''sleep'') (JStr '''') JNull connected_client)
       = Inr ''Sleeping''
   \<and> Suspend True \<in> set (dbus_calls (ioloop_advance example_system 2
        (snd (processCommand example_system (JStr ''sleep'') (JStr '''') JNull
           connected_client))))
   \<and> fst (processCommand example_system (JStr ''reboot'') (JStr '''') JNull connected_client)
       = Inr ''Rebooting''
   \<and> Reboot True \<in> set (dbus_calls (ioloop_advance example_system 2
        (snd (processCommand example_system (JStr ''reboot'') (JStr '''') JNull
           connected_client))))"
proof -
  have no: "\<not> can_poweroff refusing_system" "\<not> can_sleep refusing_system"
    "\<not> can_reboot refusing_system"
    by (simp_all add: can_poweroff_def can_sleep_def can_reboot_def refusing_system_def
        example_system_def)
  have yes: "can_poweroff example_system" "can_sleep example_system" "can_reboot example_system"
    by (simp_all add: can_poweroff_def can_sleep_def can_reboot_def example_system_def)
  from no yes
    preflight_gated [of refusing_system "JStr ''''" JNull connected_client]
    preflight_gated [of example_system "JStr ''''" JNull connected_client]
  show ?thesis by clarsimp
qed

subsection \<open>Locate\<close>

text \<open>
  Claim C6. For \<^verbatim>\<open>locate\<close> with a non-empty pattern: a search that takes longer than
  the 3.5 seconds given to \<^verbatim>\<open>with_timeout\<close> is answered with exactly \<^verbatim>\<open>Timed out\<close>,
  whatever it would have found; a search that returns before that (at 1 second, say)
  is answered with \<^verbatim>\<open>Results: \<close> and what it found.
\<close>

theorem locate_timeout:
  "truthy x \<Longrightarrow>
     (7 / 2 < locate_seconds env x \<longrightarrow>
        processCommand env (JStr ''locate'') x url st = (Inr ''Timed out'', st))
   \<and> (locate_seconds env x < 7 / 2 \<longrightarrow>
        processCommand env (JStr ''locate'') x url st
          = (Inr (''Results: '' @ locate env x), st))"
  by (simp add: processCommand_def with_timeout_def)

theorem locate_timeout_witness:
  "truthy (JStr ''hosts'')
   \<and> locate_seconds example_system (JStr ''hosts'') = 1
   \<and> processCommand example_system (JStr ''locate'') (JStr ''hosts'') JNull connected_client
       = (Inr ''Results: /etc/hosts '', connected_client)
   \<and> 7 / 2 < locate_seconds slow_system (JStr ''hosts'')
   \<and> processCommand slow_system (JStr ''locate'') (JStr ''hosts'') JNull connected_client
       = (Inr ''Timed out'', connected_client)"
proof -
  have t: "truthy (JStr ''hosts'')" by simp
  have r: "locate example_system (JStr ''hosts'') = ''/etc/hosts ''"
    by (simp add: locate_def example_system_def)
  from locate_timeout [OF t, of example_system JNull connected_client]
    locate_timeout [OF t, of slow_system JNull connected_client] r
  show ?thesis
    by (simp add: example_system_def slow_system_def)
qed

subsection \<open>Set volume\<close>

lemma volume_loop_ok:
  "int_truediv_float v 100 = Inr f \<Longrightarrow>
     volume_loop v sinks st =
       (None, st\<lparr>pulse_calls := pulse_calls st @ map (\<lambda>sink. (sink, f)) sinks\<rparr>)"
  by (induction sinks arbitrary: st) simp_all

lemma py_int_55: "py_int ''55'' = Some 55"
  by code_simp

lemma truediv_55: "int_truediv_float 55 100 = Inr (binary64 (55 / 100))"
  by code_simp

lemma binary64_0_55: "binary64 (55 / 100) = 2476979795053773 / 2 ^ 52"
  by code_simp

text \<open>
  Claim C8. For \<^verbatim>\<open>set volume\<close> with the argument \<^verbatim>\<open>55%\<close> the response is exactly
  \<^verbatim>\<open>Volume set\<close>, and \<^verbatim>\<open>volume_set_all_chans\<close> is called once for every sink of the
  sink list, in order, with the float 0.55.
\<close>

theorem set_volume_55:
  "processCommand env (JStr ''set volume'') (JStr ''55%'') url st =
     (Inr ''Volume set'',
      st\<lparr>pulse_calls :=
           pulse_calls st @ map (\<lambda>sink. (sink, binary64 (55 / 100))) (sink_list env)\<rparr>)"
  using volume_loop_ok [OF truediv_55, of "sink_list env" st]
  by (simp add: processCommand_def py_int_55)

lemma py_digits_chars:
  "py_digits prev acc s = Some v \<Longrightarrow> \<forall>c \<in> set s. is_digit c \<or> c = CHR ''_''"
  by (induction s arbitrary: prev acc) (auto split: if_splits)

lemma dropWhile_cover: "c \<in> set s \<Longrightarrow> c \<in> set (dropWhile P s) \<or> P c"
  by (induction s) auto

lemma trim_cover: "c \<in> set s \<Longrightarrow> c \<in> set (trim P s) \<or> P c"
proof -
  assume "c \<in> set s"
  then have "c \<in> set (dropWhile P s) \<or> P c"
    by (rule dropWhile_cover)
  moreover have "c \<in> set (rev (dropWhile P s)) \<Longrightarrow>
      c \<in> set (dropWhile P (rev (dropWhile P s))) \<or> P c"
    by (rule dropWhile_cover)
  ultimately show ?thesis
    by (auto simp: trim_def)
qed

lemma py_int_chars: "py_int s = Some v \<Longrightarrow> c \<in> set s \<Longrightarrow> int_char c"
proof -
  assume ok: "py_int s = Some v" and c: "c \<in> set s"
  from c have "c \<in> set (trim int_isspace s) \<or> int_isspace c"
    by (rule trim_cover)
  then show ?thesis
  proof
    assume "int_isspace c"
    then show ?thesis by (simp add: int_char_def)
  next
    assume in_strip: "c \<in> set (trim int_isspace s)"
    then obtain d ds where s: "trim int_isspace s = d # ds"
      by (cases "trim int_isspace s") auto
    from ok s obtain w where
      "py_digits False 0 ds = Some w \<and> (d = CHR ''-'' \<or> d = CHR ''+'')
        \<or> py_digits False 0 (d # ds) = Some w"
      by (auto simp: py_int_def split: if_splits)
    then have "\<forall>c \<in> set (d # ds). is_digit c \<or> c = CHR ''_'' \<or> c = CHR ''-'' \<or> c = CHR ''+''"
      using py_digits_chars [of False 0 ds w] py_digits_chars [of False 0 "d # ds" w] by auto
    with in_strip s show ?thesis
      by (auto simp: int_char_def)
  qed
qed

text \<open>
  Claim C4, as the code has it. For every argument string of \<^verbatim>\<open>set volume\<close>, every
  \<open>%\<close> is removed, wherever it stands, and the rest is parsed as an integer. When that
  fails, and so whenever the argument holds a character other than \<open>%\<close>, a digit,
  whitespace, a sign or an underscore, the response is exactly \<^verbatim>\<open>Invalid percentage\<close>
  and the state is as before: PulseAudio is not called. When it gives \<open>v\<close>, every sink
  is set to \<open>v / 100.0\<close> and the response is \<^verbatim>\<open>Volume set\<close>.
\<close>

theorem set_volume_parse:
  "(py_int (remove_percent x) = None \<longrightarrow>
      processCommand env (JStr ''set volume'') (JStr x) url st = (Inr ''Invalid percentage'', st))
   \<and> ((\<exists>c \<in> set x. c \<noteq> CHR ''%'' \<and> \<not> int_char c) \<longrightarrow>
      processCommand env (JStr ''set volume'') (JStr x) url st = (Inr ''Invalid percentage'', st))
   \<and> (py_int (remove_percent x) = Some v \<and> int_truediv_float v 100 = Inr f \<longrightarrow>
      processCommand env (JStr ''set volume'') (JStr x) url st
        = (Inr ''Volume set'',
           st\<lparr>pulse_calls := pulse_calls st @ map (\<lambda>sink. (sink, f)) (sink_list env)\<rparr>))"
proof -
  have bad: "py_int (remove_percent x) = None"
    if "\<exists>c \<in> set x. c \<noteq> CHR ''%'' \<and> \<not> int_char c"
  proof (cases "py_int (remove_percent x)")
    case None
    then show ?thesis .
  next
    case (Some w)
    from that obtain c where "c \<in> set (remove_percent x)" "\<not> int_char c"
      by (auto simp: remove_percent_def)
    with py_int_chars [OF Some] show ?thesis by blast
  qed
  have none: "py_int (remove_percent x) = None \<Longrightarrow>
      processCommand env (JStr ''set volume'') (JStr x) url st = (Inr ''Invalid percentage'', st)"
    by (simp add: processCommand_def remove_percent_def)
  have some: "py_int (remove_percent x) = Some v \<Longrightarrow> int_truediv_float v 100 = Inr f \<Longrightarrow>
      processCommand env (JStr ''set volume'') (JStr x) url st
        = (Inr ''Volume set'',
           st\<lparr>pulse_calls := pulse_calls st @ map (\<lambda>sink. (sink, f)) (sink_list env)\<rparr>)"
    by (simp add: processCommand_def remove_percent_def volume_loop_ok)
  from bad none some show ?thesis by blast
qed

theorem set_volume_parse_witness:
  "py_int (remove_percent ''abc'') = None
   \<and> (\<exists>c \<in> set ''abc''. c \<noteq> CHR ''%'' \<and> \<not> int_char c)
   \<and> processCommand example_system (JStr ''set volume'') (JStr ''abc'') JNull connected_client
       = (Inr ''Invalid percentage'', connected_client)
   \<and> py_int (remove_percent ''1%50%'') = Some 150
   \<and> int_truediv_float 150 100 = Inr (3 / 2)
   \<and> processCommand example_system (JStr ''set volume'') (JStr ''1%50%'') JNull connected_client
       = (Inr ''Volume set'',
          connected_client\<lparr>pulse_calls := pulse_calls connected_client
             @ map (\<lambda>sink. (sink, 3 / 2)) (sink_list example_system)\<rparr>)"
proof -
  have a: "py_int (remove_percent ''abc'') = None"
    by code_simp
  have b: "\<exists>c \<in> set ''abc''. c \<noteq> CHR ''%'' \<and> \<not> int_char c"
    by code_simp
  have c: "py_int (remove_percent ''1%50%'') = Some 150"
    by code_simp
  have d: "int_truediv_float 150 100 = Inr (3 / 2)"
    by code_simp
  from a b c d
    set_volume_parse [of "''abc''" example_system JNull connected_client 0 0]
    set_volume_parse [of "''1%50%''" example_system JNull connected_client 150 "3 / 2"]
  show ?thesis by simp
qed

text \<open>
  The claim as the specification words it fails on \<^verbatim>\<open>5%5\<close>: with one \<open>%\<close> taken off the
  end, the text is no integer, yet the code sets every sink to 0.55.
\<close>

theorem set_volume_counterexample:
  "py_int (strip_trailing_percent ''5%5'') = None
   \<and> processCommand example_system (JStr ''set volume'') (JStr ''5%5'') JNull connected_client
       = (Inr ''Volume set'',
          connected_client\<lparr>pulse_calls := pulse_calls connected_client
             @ [(''speakers'', binary64 (55 / 100)), (''headset'', binary64 (55 / 100))]\<rparr>)"
proof -
  have a: "py_int (strip_trailing_percent ''5%5'') = None"
    by code_simp
  have b: "py_int (filter (\<lambda>c. c \<noteq> CHR ''%'') ''5%5'') = Some 55"
    by code_simp
  have c: "int_truediv_float 55 100 = Inr (binary64 (55 / 100))"
    by code_simp
  have d: "sink_list example_system = [''speakers'', ''headset'']"
    by (simp add: example_system_def)
  from a b volume_loop_ok [OF c, of "sink_list example_system" connected_client] d
  show ?thesis
    by (simp add: processCommand_def)
qed

section \<open>The connection: proofs\<close>

subsection \<open>What the handlers leave alone\<close>

lemma same_connection_refl: "same_connection st st"
  by (simp add: same_connection_def)

lemma same_connection_trans:
  "same_connection a b \<Longrightarrow> same_connection b c \<Longrightarrow> same_connection a c"
  by (simp add: same_connection_def)

lemma volume_loop_same: "volume_loop v sinks st = (r, st') \<Longrightarrow> same_connection st st'"
proof (induction sinks arbitrary: st)
  case Nil
  then show ?case by (simp add: same_connection_def)
next
  case (Cons sink sinks)
  show ?case
  proof (cases "int_truediv_float v 100")
    case (Inl e)
    with Cons.prems show ?thesis by (simp add: same_connection_def)
  next
    case (Inr f)
    have "same_connection st (st\<lparr>pulse_calls := pulse_calls st @ [(sink, f)]\<rparr>)"
      by (simp add: same_connection_def)
    moreover have "same_connection (st\<lparr>pulse_calls := pulse_calls st @ [(sink, f)]\<rparr>) st'"
      using Cons.prems Inr by (intro Cons.IH) simp
    ultimately show ?thesis
      by (rule same_connection_trans)
  qed
qed

lemma processCommand_same: "same_connection st (snd (processCommand env command x url st))"
proof -
  have v: "\<And>volume. same_connection st (snd (case volume_loop volume (sink_list env) st of
                     (Some e, st') \<Rightarrow> (Inl e, st')
                   | (None, st') \<Rightarrow> (Inr ''Volume set'', st')))"
    by (auto split: prod.splits option.splits dest: volume_loop_same)
  show ?thesis
    unfolding processCommand_def
    by (simp add: same_connection_refl v cmd_lock_def cmd_unlock_def dbus_method_def
        split: sum.splits json.splits option.splits)
      (simp add: same_connection_def)
qed

lemma respond_same: "same_connection st1 (step_client (respond (r, st1)))"
  by (simp add: respond_def write_message_def same_connection_def
      split: sum.splits option.splits)

lemma respond_processCommand_same:
  "same_connection st (step_client (respond (processCommand env command x url st)))"
proof -
  obtain r st1 where p: "processCommand env command x url st = (r, st1)"
    by (cases "processCommand env command x url st")
  with processCommand_same [of st env command x url] have "same_connection st st1"
    by simp
  moreover have "same_connection st1 (step_client (respond (r, st1)))"
    by (rule respond_same)
  ultimately show ?thesis
    unfolding p by (rule same_connection_trans)
qed

lemma run_body_same: "same_connection st (step_client (run_body env msg st))"
proof -
  have l: "\<And>l t. same_connection st (logging l t st)"
    by (simp add: same_connection_def logging_def)
  show ?thesis
    unfolding run_body_def
    by (simp add: same_connection_refl l respond_same respond_processCommand_same
        split: sum.splits prod.splits)
qed

lemma run_same_or_closed:
  "same_connection st (snd (run env ms st))
   \<or> (ws (snd (run env ms st)) = None
       \<and> open_sockets (snd (run env ms st)) = filter (\<lambda>t. Some t \<noteq> ws st) (open_sockets st)
       \<and> connect_calls (snd (run env ms st)) = connect_calls st
       \<and> sockets_opened (snd (run env ms st)) = sockets_opened st)"
proof (induction ms arbitrary: st)
  case Nil
  show ?case by (simp add: same_connection_refl split: option.splits)
next
  case (Cons m ms)
  show ?case
  proof (cases "ws st")
    case None
    then show ?thesis by (simp add: same_connection_refl)
  next
    case (Some s)
    show ?thesis
    proof (cases m)
      case Eof
      with Some show ?thesis by (simp add: logging_def)
    next
      case Malformed
      with Some show ?thesis by (simp add: same_connection_refl)
    next
      case (Json msg)
      have same: "same_connection st (step_client (run_body env msg st))"
        by (rule run_body_same)
      show ?thesis
      proof (cases "run_body env msg st")
        case (Continue st')
        with same have s': "same_connection st st'" by simp
        from Cons.IH [of st'] s' have
          "same_connection st (snd (run env ms st'))
           \<or> (ws (snd (run env ms st')) = None
             \<and> open_sockets (snd (run env ms st')) = filter (\<lambda>t. Some t \<noteq> ws st) (open_sockets st)
             \<and> connect_calls (snd (run env ms st')) = connect_calls st
             \<and> sockets_opened (snd (run env ms st')) = sockets_opened st)"
          by (auto simp: same_connection_def)
        with Some Json Continue show ?thesis by simp
      next
        case (Break st')
        with same Some Json show ?thesis by simp
      next
        case (Raise e st')
        with same Some Json show ?thesis by simp
      qed
    qed
  qed
qed

lemma run_one_socket: "one_socket st \<Longrightarrow> one_socket (snd (run env ms st))"
  using run_same_or_closed [of st env ms]
  by (auto simp: one_socket_def same_connection_def split: option.splits)

lemma run_connect_calls: "connect_calls (snd (run env ms st)) = connect_calls st"
  using run_same_or_closed [of st env ms]
  by (auto simp: same_connection_def)

lemma connect_one_socket:
  "ws st = None \<Longrightarrow> one_socket st \<Longrightarrow> one_socket (connect env hs st)"
proof (cases hs)
  case (Refused e)
  assume "ws st = None" "one_socket st"
  with Refused show ?thesis
    by (simp add: connect_def Let_def one_socket_def logging_def)
next
  case (Accepted ms)
  assume a: "ws st = None" "one_socket st"
  let ?st = "logging INFO (Text ''Connection opened'')
      (st\<lparr>connect_calls := Suc (connect_calls st), ws := Some (sockets_opened st),
          sockets_opened := Suc (sockets_opened st),
          open_sockets := open_sockets st @ [sockets_opened st]\<rparr>)"
  from a have "one_socket ?st"
    by (simp add: one_socket_def logging_def)
  then have "one_socket (snd (run env ms ?st))"
    by (rule run_one_socket)
  with Accepted show ?thesis
    by (simp add: connect_def Let_def)
qed

lemma connect_connect_calls: "connect_calls (connect env hs st) = Suc (connect_calls st)"
  by (cases hs) (simp_all add: connect_def Let_def logging_def run_connect_calls)

lemma keep_alive_one_socket: "one_socket st \<Longrightarrow> one_socket (keep_alive env hs st)"
proof (cases "ws st")
  case None
  assume "one_socket st"
  with None have "one_socket (logging INFO (Text ''Reconnecting'') st)"
    "ws (logging INFO (Text ''Reconnecting'') st) = None"
    by (simp_all add: one_socket_def logging_def)
  then have "one_socket (connect env hs (logging INFO (Text ''Reconnecting'') st))"
    using connect_one_socket by blast
  with None show ?thesis by (simp add: keep_alive_def)
next
  case (Some s)
  assume "one_socket st"
  with Some show ?thesis by (simp add: keep_alive_def)
qed

lemma ticks_one_socket:
  "one_socket st \<Longrightarrow> one_socket (foldl (\<lambda>st h. keep_alive env h st) st ticks)"
  by (induction ticks arbitrary: st) (simp_all add: keep_alive_one_socket)

lemma WSClient_one_socket: "one_socket (WSClient env hs ticks)"
proof -
  have "one_socket init" "ws init = None"
    by (simp_all add: one_socket_def init_def)
  then have "one_socket (connect env hs init)"
    using connect_one_socket by blast
  then show ?thesis
    unfolding WSClient_def by (rule ticks_one_socket)
qed

subsection \<open>One socket at a time\<close>

text \<open>
  Claim C2, as the code has it. The state check is in \<^verbatim>\<open>keep_alive\<close>: while \<^verbatim>\<open>self.ws\<close>
  is set a tick does nothing, so it opens no socket. After a read returns end of stream
  \<^verbatim>\<open>self.ws\<close> is \<open>None\<close>, and the next tick runs \<^verbatim>\<open>connect\<close> exactly once. So the client,
  from its first \<^verbatim>\<open>connect\<close> through any number of ticks, never has more than one
  connection that the peer has not closed. \<^verbatim>\<open>connect\<close> itself checks nothing.
\<close>

theorem one_socket_at_a_time:
  "(ws st \<noteq> None \<longrightarrow> keep_alive env hs st = st)
   \<and> (ws st \<noteq> None \<longrightarrow>
        ws (snd (run env (Eof # ms) st)) = None
        \<and> connect_calls (keep_alive env hs (snd (run env (Eof # ms) st)))
            = Suc (connect_calls st))
   \<and> length (open_sockets (WSClient env hs' ticks)) \<le> 1"
proof -
  have a: "ws st \<noteq> None \<Longrightarrow> keep_alive env hs st = st"
    by (auto simp: keep_alive_def)
  have b: "ws st \<noteq> None \<Longrightarrow> ws (snd (run env (Eof # ms) st)) = None"
    by (auto simp: logging_def)
  have c: "ws st \<noteq> None \<Longrightarrow>
      connect_calls (keep_alive env hs (snd (run env (Eof # ms) st))) = Suc (connect_calls st)"
    by (auto simp: keep_alive_def connect_connect_calls logging_def)
  have d: "length (open_sockets (WSClient env hs' ticks)) \<le> 1"
    using WSClient_one_socket [of env hs' ticks]
    by (simp add: one_socket_def split: option.splits)
  from a b c d show ?thesis by blast
qed

lemma connected_client_eq:
  "connected_client =
     init\<lparr>ws := Some 0, logged := [(INFO, Text ''Connection opened'')], connect_calls := 1,
          sockets_opened := 1, open_sockets := [0]\<rparr>"
  by (simp add: connected_client_def connect_def init_def logging_def Let_def)

lemma ws_connected_client: "ws connected_client = Some 0"
  by (simp add: connected_client_eq)

theorem one_socket_at_a_time_witness:
  "ws connected_client \<noteq> None
   \<and> keep_alive example_system (Accepted []) connected_client = connected_client
   \<and> ws (snd (run example_system [Eof] connected_client)) = None
   \<and> connect_calls (keep_alive example_system (Accepted [])
        (snd (run example_system [Eof] connected_client))) = Suc (connect_calls connected_client)
   \<and> length (open_sockets (WSClient example_system (Accepted [Eof]) [Accepted []])) \<le> 1"
proof -
  have h: "ws connected_client \<noteq> None"
    by (simp add: ws_connected_client)
  with one_socket_at_a_time [of connected_client example_system "Accepted []" "[]"
      "Accepted [Eof]" "[Accepted []]"]
  show ?thesis by blast
qed

text \<open>
  \<^verbatim>\<open>connect\<close> called on a connected client is no no-op: the handshake is made, \<^verbatim>\<open>self.ws\<close>
  is replaced, and two connections are open.
\<close>

theorem connect_counterexample:
  "ws connected_client = Some 0
   \<and> ws (connect example_system (Accepted []) connected_client) = Some 1
   \<and> open_sockets (connect example_system (Accepted []) connected_client) = [0, 1]"
  by (simp add: connected_client_eq connect_def init_def logging_def Let_def)

subsection \<open>Error frames\<close>

lemma ticks_while_connected:
  "ws st \<noteq> None \<Longrightarrow> foldl (\<lambda>st h. keep_alive env h st) st ticks = st"
  by (induction ticks) (auto simp: keep_alive_def)

text \<open>
  Claim C1. On a frame with an \<^verbatim>\<open>error\<close> key the loop logs the text and ends, as the
  claim says. But \<^verbatim>\<open>self.ws\<close> stays set (only the end-of-stream branch resets it), so
  the client does not count as disconnected and no keep-alive tick, however many
  follow, calls \<^verbatim>\<open>connect\<close>: the state stays as the loop left it.
\<close>

theorem error_frame_stalls:
  "ws st = Some s \<Longrightarrow> map_of kvs ''error'' = Some text \<Longrightarrow>
     run env (Json (JObj kvs) # ms) st = (Error_break, logging ERROR (Value text) st)
     \<and> ws (logging ERROR (Value text) st) = Some s
     \<and> foldl (\<lambda>st h. keep_alive env h st) (logging ERROR (Value text) st) ticks
         = logging ERROR (Value text) st"
proof -
  assume c: "ws st = Some s" and e: "map_of kvs ''error'' = Some text"
  from e have "run_body env (JObj kvs) st = Break (logging ERROR (Value text) st)"
    by (simp add: run_body_def)
  with c have r: "run env (Json (JObj kvs) # ms) st = (Error_break, logging ERROR (Value text) st)"
    by simp
  from c have w: "ws (logging ERROR (Value text) st) = Some s"
    by (simp add: logging_def)
  then have "foldl (\<lambda>st h. keep_alive env h st) (logging ERROR (Value text) st) ticks
      = logging ERROR (Value text) st"
    by (intro ticks_while_connected) simp
  with r w show ?thesis by blast
qed

theorem error_frame_stalls_witness:
  "ws connected_client = Some 0
   \<and> map_of [(''error'', JStr ''bad token'')] ''error'' = Some (JStr ''bad token'')
   \<and> run example_system [Json (JObj [(''error'', JStr ''bad token'')])] connected_client
       = (Error_break, logging ERROR (Value (JStr ''bad token'')) connected_client)
   \<and> ws (logging ERROR (Value (JStr ''bad token'')) connected_client) = Some 0
   \<and> foldl (\<lambda>st h. keep_alive example_system h st)
        (logging ERROR (Value (JStr ''bad token'')) connected_client) [Accepted [], Accepted []]
       = logging ERROR (Value (JStr ''bad token'')) connected_client"
proof -
  have m: "map_of [(''error'', JStr ''bad token'')] ''error'' = Some (JStr ''bad token'')"
    by simp
  from error_frame_stalls [OF ws_connected_client m, of example_system "[]"
      "[Accepted [], Accepted []]"] ws_connected_client m
  show ?thesis by blast
qed

subsection \<open>Frames of no known shape\<close>

text \<open>
  Claim C3, as the code has it. A frame that decodes to an object with none of the keys
  \<^verbatim>\<open>error\<close>, \<^verbatim>\<open>query\<close>, \<^verbatim>\<open>command\<close> is logged as a warning, nothing is sent, and the loop
  goes on with the next message. Decoding can fail, and then the loop ends with the
  exception: \<^verbatim>\<open>ValueError\<close> for a text that is not JSON, and the error of the failed
  subscript for a query or command object without the fields read from it.
\<close>

theorem unrecognized_frame:
  "ws st = Some s \<Longrightarrow>
     (map_of kvs ''error'' = None \<and> map_of kvs ''query'' = None \<and> map_of kvs ''command'' = None
        \<longrightarrow> run env (Json (JObj kvs) # ms) st
             = run env ms (logging WARNING (Unknown_message (JObj kvs)) st))
     \<and> run env (Malformed # ms) st = (Raised ValueError, st)
     \<and> (map_of kvs ''error'' = None \<and> map_of kvs ''query'' \<noteq> None
          \<and> query_fields (JObj kvs) = Inl e
        \<longrightarrow> run env (Json (JObj kvs) # ms) st = (Raised e, st))
     \<and> (map_of kvs ''error'' = None \<and> map_of kvs ''query'' = None
          \<and> map_of kvs ''command'' \<noteq> None \<and> command_fields (JObj kvs) = Inl e
        \<longrightarrow> run env (Json (JObj kvs) # ms) st = (Raised e, st))"
  by (simp add: run_body_def)

theorem unrecognized_frame_witness:
  "ws connected_client = Some 0
   \<and> run example_system [Json (JObj [(''ping'', JInt 1)])] connected_client
       = (Waiting, logging WARNING (Unknown_message (JObj [(''ping'', JInt 1)])) connected_client)
   \<and> run example_system [Malformed] connected_client = (Raised ValueError, connected_client)
   \<and> run example_system [Json (JObj [(''query'', JObj [(''value'', JStr ''memory'')])])]
        connected_client = (Raised KeyError, connected_client)
   \<and> run example_system
        [Json (JObj [(''command'', JObj [(''command'', JStr ''lock''), (''x'', JStr '''')])])]
        connected_client = (Raised KeyError, connected_client)"
proof -
  have q: "query_fields (JObj [(''query'', JObj [(''value'', JStr ''memory'')])]) = Inl KeyError"
    by (simp add: query_fields_def)
  have c: "command_fields
      (JObj [(''command'', JObj [(''command'', JStr ''lock''), (''x'', JStr '''')])])
      = Inl KeyError"
    by (simp add: command_fields_def)
  have w: "ws (logging WARNING (Unknown_message (JObj [(''ping'', JInt 1)])) connected_client)
      = Some 0"
    by (simp add: logging_def ws_connected_client)
  from q c w ws_connected_client
    unrecognized_frame [OF ws_connected_client, of "[(''ping'', JInt 1)]" example_system "[]"
      KeyError]
    unrecognized_frame [OF ws_connected_client,
      of "[(''query'', JObj [(''value'', JStr ''memory'')])]" example_system "[]" KeyError]
    unrecognized_frame [OF ws_connected_client,
      of "[(''command'', JObj [(''command'', JStr ''lock''), (''x'', JStr '''')])]"
      example_system "[]" KeyError]
  show ?thesis by simp
qed

text \<open>
  A query object without its fields ends the loop with \<^verbatim>\<open>KeyError\<close>; the well-formed
  query behind it is never answered.
\<close>

theorem decode_failure_counterexample:
  "run example_system
     [Json (JObj [(''query'', JObj [])]),
      Json (JObj [(''query'', JObj [(''value'', JStr ''memory''), (''x'', JStr '''')])])]
     connected_client
   = (Raised KeyError, connected_client)"
  by (simp add: ws_connected_client run_body_def query_fields_def)

end
